theory Spec2Isabelle
  imports Main
begin

section \<open>The feed update engine of app.py\<close>

text \<open>
  A shallow embedding of the update core of \<^verbatim>\<open>src/app.py\<close>: the date conversion
  (\<^verbatim>\<open>safe_struct_time_to_ts\<close>), the per-result reconciliation and the sweep
  (\<^verbatim>\<open>update_feeds_async\<close>), and the job manager (\<^verbatim>\<open>start_update_job\<close>,
  \<^verbatim>\<open>cancel_update_job\<close>).

  The two SQLite tables are lists of rows in insertion order. Every Python exception the
  source can raise inside the modelled code is a value \<open>Inl e\<close>, and every
  \<^verbatim>\<open>try/except\<close> is a case distinction on it.
\<close>

subsection \<open>Tables\<close>

text \<open>
  Table \<^verbatim>\<open>feeds\<close>. Nullable columns are options (\<open>None\<close> is SQL NULL).
  \<^verbatim>\<open>fail_count\<close> and \<^verbatim>\<open>month_count\<close> are only ever written as 0, as a
  previous value plus one, or as a \<^verbatim>\<open>COUNT(*)\<close>, hence natural numbers.
\<close>

record feed_row =
  f_id :: nat
  url :: string
  title :: "string option"
  etag :: "string option"
  last_modified :: "string option"
  last_fetch :: "int option"
  fail_count :: "nat option"
  next_fetch :: "int option"
  month_count :: "nat option"
  last_ok :: "int option"

text \<open>
  Table \<^verbatim>\<open>entries\<close>. The only \<^verbatim>\<open>INSERT\<close> into it is the one in
  \<^verbatim>\<open>update_feeds_async\<close>, which stores an integer \<^verbatim>\<open>published\<close>;
  \<^verbatim>\<open>bookmarked\<close> has default 0 and is toggled between 0 and 1.
\<close>

record entry_row =
  e_id :: nat
  feed_id :: nat
  guid :: string
  e_title :: string
  link :: "string option"
  published :: int
  content_html :: string
  read_at :: "int option"
  bookmarked :: int
  created_at :: int

record store =
  feeds :: "feed_row list"
  entries :: "entry_row list"

subsection \<open>What the fetch and the parser deliver\<close>

datatype exn = AttributeError | TypeError | ValueError | OverflowError

text \<open>
  A \<^verbatim>\<open>time.struct_time\<close>-like object. \<open>tm_year\<close> is \<open>None\<close> when
  \<^verbatim>\<open>int(st.tm_year)\<close> raises (no such attribute, or not a number).
\<close>

datatype struct_time = Struct_time (tm_year: "int option") (tm_fields: "int list")

text \<open>A parsed entry: a field is \<open>None\<close> when the key is absent.\<close>

record parsed_entry =
  pe_id :: "string option"
  pe_guid :: "string option"
  pe_link :: "string option"
  pe_title :: "string option"
  pe_published :: "string option"
  pe_updated :: "string option"
  pe_published_parsed :: "struct_time option"
  pe_updated_parsed :: "struct_time option"
  pe_content :: "string option list"
  pe_summary :: "string option"

record parsed_feed =
  pf_title :: "string option"
  pf_entries :: "parsed_entry list"

text \<open>
  The tuple \<^verbatim>\<open>(feed_id, kind, payload, etag, last_mod)\<close> that \<^verbatim>\<open>fetch_one\<close>
  returns is a pair of the feed id and one of the four kinds.
\<close>

datatype fetch_result =
    Not_modified
  | Http_error int
  | Exception string
  | Ok string "string option" "string option"

subsection \<open>Clock, configuration and library functions\<close>

text \<open>
  What the code reads from outside: the clock (\<^verbatim>\<open>now_ts()\<close>, the current year, and
  \<^verbatim>\<open>cutoff_ts()\<close>, which a sweep reads once at its start), the three configured
  intervals, and the library functions \<^verbatim>\<open>calendar.timegm\<close>, \<^verbatim>\<open>time.mktime\<close>,
  \<^verbatim>\<open>hashlib.sha256(...).hexdigest()\<close>, \<^verbatim>\<open>str.strip\<close> and \<^verbatim>\<open>feedparser.parse\<close>.
  A library function that can raise returns a sum. The clock readings taken while one
  result is reconciled are one value.
\<close>

record env =
  now_ts :: int
  now_year :: int
  cutoff_ts :: int
  INTERVAL_LOW :: int
  INTERVAL_MED :: int
  INTERVAL_HIGH :: int
  timegm :: "struct_time \<Rightarrow> exn + int"
  mktime :: "struct_time \<Rightarrow> exn + int"
  sha256_hexdigest :: "string \<Rightarrow> string"
  str_strip :: "string \<Rightarrow> string"
  feedparser_parse :: "string \<Rightarrow> exn + parsed_feed"

subsection \<open>Date safety\<close>

definition read_tm_year :: "struct_time \<Rightarrow> exn + int" where
  "read_tm_year st = (case tm_year st of None \<Rightarrow> Inl AttributeError | Some y \<Rightarrow> Inr y)"

text \<open>
  \<^verbatim>\<open>safe_struct_time_to_ts\<close>: three \<^verbatim>\<open>try\<close> blocks in a row. The result type keeps
  the exception branch, so that "never raises" is a statement about the function and not
  about its type.
\<close>

definition safe_struct_time_to_ts :: "env \<Rightarrow> struct_time \<Rightarrow> exn + int" where
  "safe_struct_time_to_ts ev st =
     (case read_tm_year st of
        Inl _ \<Rightarrow> Inr (now_ts ev)
      | Inr y \<Rightarrow>
          if y < 1971 \<or> y > now_year ev + 5 then Inr (now_ts ev)
          else (case timegm ev st of
                  Inr t \<Rightarrow> Inr t
                | Inl _ \<Rightarrow> (case mktime ev st of
                              Inr t \<Rightarrow> Inr t
                            | Inl _ \<Rightarrow> Inr (now_ts ev))))"

text \<open>
  \<^verbatim>\<open>entry_published_ts\<close>: the first of \<^verbatim>\<open>published_parsed\<close>,
  \<^verbatim>\<open>updated_parsed\<close> that is present, else the current time.
\<close>

definition entry_published_ts :: "env \<Rightarrow> parsed_entry \<Rightarrow> exn + int" where
  "entry_published_ts ev e =
     (case pe_published_parsed e of
        Some st \<Rightarrow> safe_struct_time_to_ts ev st
      | None \<Rightarrow> (case pe_updated_parsed e of
                   Some st \<Rightarrow> safe_struct_time_to_ts ev st
                 | None \<Rightarrow> Inr (now_ts ev)))"

subsection \<open>Scheduling policy\<close>

text \<open>\<^verbatim>\<open>backoff = min(6 * 3600, (2 ** min(fail, 8)) * 60)\<close>\<close>

definition backoff :: "nat \<Rightarrow> int" where
  "backoff fail = min (6 * 3600) ((2 ^ (min fail 8)) * 60)"

definition choose_interval :: "env \<Rightarrow> nat \<Rightarrow> int" where
  "choose_interval ev mc =
     (if mc \<le> 10 then INTERVAL_LOW ev
      else if mc \<le> 200 then INTERVAL_MED ev
      else INTERVAL_HIGH ev)"

subsection \<open>Strings\<close>

text \<open>Python's \<^verbatim>\<open>a or b\<close> on a possibly absent string: an empty string is falsy.\<close>

definition or_str :: "string option \<Rightarrow> string option \<Rightarrow> string option" where
  "or_str a b = (case a of Some s \<Rightarrow> (if s \<noteq> [] then Some s else b) | None \<Rightarrow> b)"

definition or_empty :: "string option \<Rightarrow> string" where
  "or_empty a = (case a of Some s \<Rightarrow> s | None \<Rightarrow> [])"

text \<open>\<^verbatim>\<open>(x or "").strip() or None\<close>\<close>

definition strip_or_None :: "env \<Rightarrow> string option \<Rightarrow> string option" where
  "strip_or_None ev a = (let s = str_strip ev (or_empty a) in if s \<noteq> [] then Some s else None)"

text \<open>
  \<^verbatim>\<open>stable_guid\<close>: the feed-supplied identifier, else the SHA-256 of link, title and
  date joined by newlines.
\<close>

definition stable_guid :: "env \<Rightarrow> parsed_entry \<Rightarrow> string" where
  "stable_guid ev e =
     (let gid = or_empty (or_str (pe_id e) (pe_guid e)) in
      if gid \<noteq> [] then gid
      else
          (let link = or_empty (pe_link e);
               title = or_empty (pe_title e);
               published = (if or_empty (pe_published e) \<noteq> [] then or_empty (pe_published e)
                            else or_empty (pe_updated e))
           in sha256_hexdigest ev (link @ [CHR 0x0A] @ title @ [CHR 0x0A] @ published)))"

text \<open>
  \<^verbatim>\<open>entry_content_html\<close>: the value of the first content item when there is one
  (an absent or empty value is the empty string), else the summary.
\<close>

definition entry_content_html :: "parsed_entry \<Rightarrow> string" where
  "entry_content_html e =
     (case pe_content e of
        c # _ \<Rightarrow> or_empty c
      | [] \<Rightarrow> or_empty (pe_summary e))"

subsection \<open>SQL statements\<close>

text \<open>\<^verbatim>\<open>SELECT ... FROM feeds WHERE id=?\<close> with \<^verbatim>\<open>fetchone()\<close>\<close>

definition fetchone_feed :: "store \<Rightarrow> nat \<Rightarrow> feed_row option" where
  "fetchone_feed db fid = find (\<lambda>f. f_id f = fid) (feeds db)"

text \<open>\<^verbatim>\<open>UPDATE feeds SET ... WHERE id=?\<close>\<close>

definition update_feed :: "nat \<Rightarrow> (feed_row \<Rightarrow> feed_row) \<Rightarrow> store \<Rightarrow> store" where
  "update_feed fid upd db =
     db\<lparr>feeds := map (\<lambda>f. if f_id f = fid then upd f else f) (feeds db)\<rparr>"

text \<open>The rowid SQLite gives a new row of an \<^verbatim>\<open>INTEGER PRIMARY KEY\<close> table: the largest one plus 1.\<close>

definition new_rowid :: "entry_row list \<Rightarrow> nat" where
  "new_rowid es = Suc (fold max (map e_id es) 0)"

text \<open>
  \<^verbatim>\<open>INSERT OR IGNORE INTO entries(feed_id,guid,title,link,published,content_html,created_at)\<close>:
  a row that would break \<^verbatim>\<open>UNIQUE(feed_id, guid)\<close> is dropped. The second component
  is the cursor's \<^verbatim>\<open>rowcount\<close>.
\<close>

definition has_key :: "nat \<Rightarrow> string \<Rightarrow> entry_row list \<Rightarrow> bool" where
  "has_key fid g es = list_ex (\<lambda>r. feed_id r = fid \<and> guid r = g) es"

definition insert_or_ignore ::
  "nat \<Rightarrow> string \<Rightarrow> string \<Rightarrow> string option \<Rightarrow> int \<Rightarrow> string \<Rightarrow> int \<Rightarrow> store \<Rightarrow> store \<times> nat" where
  "insert_or_ignore fid g t l pub html created db =
     (if has_key fid g (entries db) then (db, 0)
      else (db\<lparr>entries := entries db @
               [\<lparr>e_id = new_rowid (entries db), feed_id = fid, guid = g, e_title = t, link = l,
                 published = pub, content_html = html, read_at = None, bookmarked = 0,
                 created_at = created\<rparr>]\<rparr>, 1))"

text \<open>The constraint \<^verbatim>\<open>UNIQUE(feed_id, guid)\<close> of the table.\<close>

definition unique_keys :: "entry_row list \<Rightarrow> bool" where
  "unique_keys es = distinct (map (\<lambda>r. (feed_id r, guid r)) es)"

text \<open>\<^verbatim>\<open>recompute_month_count\<close>\<close>

definition recompute_month_count :: "nat \<Rightarrow> int \<Rightarrow> store \<Rightarrow> store" where
  "recompute_month_count fid cutoff db =
     (let c = length (filter (\<lambda>r. feed_id r = fid \<and> published r \<ge> cutoff) (entries db))
      in update_feed fid (\<lambda>f. f\<lparr>month_count := Some c\<rparr>) db)"

text \<open>\<^verbatim>\<open>int(mcrow["month_count"] or 0) if mcrow else 0\<close>\<close>

definition read_month_count :: "store \<Rightarrow> nat \<Rightarrow> nat" where
  "read_month_count db fid =
     (case fetchone_feed db fid of
        None \<Rightarrow> 0
      | Some row \<Rightarrow> (case month_count row of None \<Rightarrow> 0 | Some c \<Rightarrow> c))"

text \<open>\<^verbatim>\<open>int(row["fail_count"] or 0)\<close>\<close>

definition read_fail_count :: "feed_row \<Rightarrow> nat" where
  "read_fail_count row = (case fail_count row of None \<Rightarrow> 0 | Some n \<Rightarrow> n)"

text \<open>\<^verbatim>\<open>DELETE FROM entries WHERE published < ? AND bookmarked = 0\<close>\<close>

definition delete_old :: "int \<Rightarrow> store \<Rightarrow> store" where
  "delete_old cutoff db =
     db\<lparr>entries := filter (\<lambda>r. \<not> (published r < cutoff \<and> bookmarked r = 0)) (entries db)\<rparr>"

subsection \<open>The sweep\<close>

text \<open>
  The cancellation signal as the sweep sees it. The sweep only ever reads it
  (\<^verbatim>\<open>cancel_event and cancel_event.is_set()\<close>), and nothing clears a
  \<^verbatim>\<open>threading.Event\<close> once set. \<open>Some k\<close>: the first \<open>k\<close> readings of the sweep find
  it clear and all later ones find it set. \<open>None\<close>: no event was passed, or it is not set
  while the sweep runs.
\<close>

type_synonym cancel = "nat option"

definition is_set :: "cancel \<Rightarrow> nat \<Rightarrow> bool" where
  "is_set c r = (case c of None \<Rightarrow> False | Some k \<Rightarrow> k \<le> r)"

datatype stmt = BEGIN | DELETE_OLD | COMMIT

text \<open>
  The local variables of \<^verbatim>\<open>update_feeds_async\<close>: the connection's tables, the four
  counters, the number of readings of the cancellation signal so far, and the transaction
  statements executed on the connection.
\<close>

record sweep_state =
  db :: store
  total :: nat
  checked :: nat
  updated :: nat
  errors :: nat
  reads :: nat
  txn_log :: "stmt list"

text \<open>
  The loop over \<^verbatim>\<open>parsed.entries\<close>, with \<^verbatim>\<open>added_any\<close> as second component.
  \<^verbatim>\<open>break\<close> on the signal, \<^verbatim>\<open>continue\<close> below the cutoff, and the
  \<^verbatim>\<open>except Exception\<close> of the body counts an error and continues.
\<close>

fun entry_loop ::
  "env \<Rightarrow> cancel \<Rightarrow> nat \<Rightarrow> parsed_entry list \<Rightarrow> sweep_state \<times> bool \<Rightarrow> sweep_state \<times> bool" where
  "entry_loop ev c fid [] (s, added_any) = (s, added_any)"
| "entry_loop ev c fid (e # es) (s, added_any) =
     (if is_set c (reads s) then (s\<lparr>reads := Suc (reads s)\<rparr>, added_any)
      else
        (let s1 = s\<lparr>reads := Suc (reads s)\<rparr>;
             g = stable_guid ev e;
             t = str_strip ev (or_empty (pe_title e));
             l = pe_link e
         in case entry_published_ts ev e of
              Inl _ \<Rightarrow> entry_loop ev c fid es (s1\<lparr>errors := errors s1 + 1\<rparr>, added_any)
            | Inr pub_ts \<Rightarrow>
                if pub_ts < cutoff_ts ev then entry_loop ev c fid es (s1, added_any)
                else
                  (case insert_or_ignore fid g t l pub_ts (entry_content_html e) (now_ts ev) (db s1) of
                     (db', rowcount) \<Rightarrow>
                       entry_loop ev c fid es (s1\<lparr>db := db'\<rparr>, added_any \<or> rowcount \<noteq> 0))))"

text \<open>
  The first \<^verbatim>\<open>UPDATE\<close> of the ok branch:
  \<^verbatim>\<open>SET title=COALESCE(?, title), etag=?, last_modified=?, last_fetch=?, last_ok=?, fail_count=0\<close>
  with the stripped title of the parsed feed as first parameter.
\<close>

definition ok_fields ::
  "env \<Rightarrow> string option \<Rightarrow> string option \<Rightarrow> string option \<Rightarrow> feed_row \<Rightarrow> feed_row" where
  "ok_fields ev feed_title etg last_mod f =
     f\<lparr>title := (case feed_title of Some t \<Rightarrow> Some t | None \<Rightarrow> title f),
       etag := etg, last_modified := last_mod,
       last_fetch := Some (now_ts ev), last_ok := Some (now_ts ev),
       fail_count := Some 0\<rparr>"

text \<open>
  The end of the ok branch: read \<^verbatim>\<open>month_count\<close> back and
  \<^verbatim>\<open>UPDATE feeds SET next_fetch=? WHERE id=?\<close>.
\<close>

definition schedule_next :: "env \<Rightarrow> nat \<Rightarrow> store \<Rightarrow> store" where
  "schedule_next ev fid d =
     (let mc = read_month_count d fid
      in update_feed fid (\<lambda>f. f\<lparr>next_fetch := Some (now_ts ev + choose_interval ev mc)\<rparr>) d)"

text \<open>
  The body of the loop over completed fetches, from \<^verbatim>\<open>checked += 1\<close> on. The
  per-feed \<^verbatim>\<open>except Exception\<close> counts one more error and goes on to the next
  result: it catches the \<^verbatim>\<open>TypeError\<close> that \<^verbatim>\<open>row["fail_count"]\<close> raises on a
  missing row in the error branch, and a raise of \<^verbatim>\<open>feedparser.parse\<close> in the ok
  branch, which comes before the first \<^verbatim>\<open>UPDATE\<close> and so leaves the feed row as it
  was. Failures of the storage itself (I/O errors of SQLite) are outside the model.
\<close>

definition reconcile :: "env \<Rightarrow> cancel \<Rightarrow> nat \<times> fetch_result \<Rightarrow> sweep_state \<Rightarrow> sweep_state" where
  "reconcile ev c res s0 =
     (let s = s0\<lparr>checked := checked s0 + 1\<rparr>; fid = fst res in
      case snd res of
        Not_modified \<Rightarrow>
          (let mc = read_month_count (db s) fid
           in s\<lparr>db := update_feed fid
                  (\<lambda>f. f\<lparr>last_fetch := Some (now_ts ev), fail_count := Some 0,
                          next_fetch := Some (now_ts ev + choose_interval ev mc)\<rparr>) (db s)\<rparr>)
      | Ok payload etg last_mod \<Rightarrow>
          (case feedparser_parse ev payload of
             Inl _ \<Rightarrow> s\<lparr>errors := errors s + 1\<rparr>
           | Inr parsed \<Rightarrow>
               (let feed_title = strip_or_None ev (pf_title parsed);
                    s1 = s\<lparr>db := update_feed fid (ok_fields ev feed_title etg last_mod) (db s)\<rparr>
                in case entry_loop ev c fid (pf_entries parsed) (s1, False) of
                     (s2, added_any) \<Rightarrow>
                       (let s3 = (if added_any then s2\<lparr>updated := updated s2 + 1\<rparr> else s2)
                        in s3\<lparr>db := schedule_next ev fid
                                       (recompute_month_count fid (cutoff_ts ev) (db s3))\<rparr>)))
      | _ \<Rightarrow>
          (let s1 = s\<lparr>errors := errors s + 1\<rparr> in
           case fetchone_feed (db s1) fid of
             None \<Rightarrow> s1\<lparr>errors := errors s1 + 1\<rparr>
           | Some row \<Rightarrow>
               (let fail = read_fail_count row + 1
                in s1\<lparr>db := update_feed fid
                        (\<lambda>f. f\<lparr>last_fetch := Some (now_ts ev), fail_count := Some fail,
                                next_fetch := Some (now_ts ev + backoff fail)\<rparr>) (db s1)\<rparr>)))"

text \<open>
  The loop that creates the tasks: the feeds whose fetch is dispatched, and the number of
  readings of the signal after it.
\<close>

fun dispatch_loop :: "cancel \<Rightarrow> feed_row list \<Rightarrow> nat \<Rightarrow> feed_row list \<times> nat" where
  "dispatch_loop c [] r = ([], r)"
| "dispatch_loop c (f # fs) r =
     (if is_set c r then ([], Suc r)
      else (case dispatch_loop c fs (Suc r) of (tasks, r') \<Rightarrow> (f # tasks, r')))"

text \<open>The loop over \<^verbatim>\<open>asyncio.as_completed(tasks)\<close>, given the results in completion order.\<close>

fun result_loop :: "env \<Rightarrow> cancel \<Rightarrow> (nat \<times> fetch_result) list \<Rightarrow> sweep_state \<Rightarrow> sweep_state" where
  "result_loop ev c [] s = s"
| "result_loop ev c (res # rest) s =
     (if is_set c (reads s) then s\<lparr>reads := Suc (reads s)\<rparr>
      else result_loop ev c rest (reconcile ev c res (s\<lparr>reads := Suc (reads s)\<rparr>)))"

text \<open>The three ways \<^verbatim>\<open>update_feeds_async\<close> selects its feeds.\<close>

definition select_feeds :: "env \<Rightarrow> nat list \<Rightarrow> bool \<Rightarrow> store \<Rightarrow> feed_row list" where
  "select_feeds ev feed_ids only_due d =
     (if feed_ids \<noteq> [] then filter (\<lambda>f. f_id f \<in> set feed_ids) (feeds d)
      else if only_due
        then filter (\<lambda>f. case next_fetch f of None \<Rightarrow> False | Some t \<Rightarrow> t \<le> now_ts ev) (feeds d)
      else feeds d)"

text \<open>\<^verbatim>\<open>fetch_one\<close>: the network's answer for a feed row, tagged with the feed's id.\<close>

definition fetch_one :: "(feed_row \<Rightarrow> fetch_result) \<Rightarrow> feed_row \<Rightarrow> nat \<times> fetch_result" where
  "fetch_one net f = (f_id f, net f)"

text \<open>
  \<^verbatim>\<open>update_feeds_async\<close>. \<open>net\<close> is the network, and \<open>done_at\<close> the time at which
  the fetch of a feed completes: \<^verbatim>\<open>asyncio.as_completed\<close> yields the dispatched fetches
  in that order. The result is the final state of the local variables: the returned
  dictionary is its four counters. The progress callback writes to the job table only
  (see \<open>progress_updater\<close> below). No statement of the model fails, so the
  \<^verbatim>\<open>rollback\<close> of the outer \<^verbatim>\<open>except\<close> is not reached.
\<close>

definition update_feeds_async ::
  "env \<Rightarrow> (feed_row \<Rightarrow> fetch_result) \<Rightarrow> (feed_row \<Rightarrow> nat) \<Rightarrow>
   cancel \<Rightarrow> nat list \<Rightarrow> bool \<Rightarrow> store \<Rightarrow> sweep_state" where
  "update_feeds_async ev net done_at c feed_ids only_due d =
     (let fs = select_feeds ev feed_ids only_due d;
          s0 = \<lparr>db = d, total = length fs, checked = 0, updated = 0, errors = 0, reads = 0,
                txn_log = []\<rparr>
      in if length fs = 0 then s0
         else
           (case dispatch_loop c fs 0 of
              (tasks, r) \<Rightarrow>
                (let s1 = s0\<lparr>reads := r, txn_log := [BEGIN]\<rparr>;
                     s2 = result_loop ev c (map (fetch_one net) (sort_key done_at tasks)) s1
                 in s2\<lparr>db := delete_old (cutoff_ts ev) (db s2),
                        txn_log := txn_log s2 @ [DELETE_OLD, COMMIT]\<rparr>)))"

subsection \<open>Job manager\<close>

text \<open>
  A job id is \<^verbatim>\<open>f"job_{now_ts()}_{os.getpid()}"\<close>: the pair of the two numbers. A
  \<^verbatim>\<open>threading.Event\<close> is a cell of the list \<open>events\<close>; the job's dictionary and the
  runner's closure both hold its index.
\<close>

type_synonym job_id = "int \<times> int"

datatype job_state = Running | Cancelling | Done | Error | Cancelled

record job =
  state :: job_state
  j_checked :: nat
  j_updated :: nat
  j_errors :: nat
  j_total :: nat
  current_url :: "string option"
  started_ts :: int
  last_change_ts :: int
  cancel_event :: "nat option"
  ended_ts :: "int option"
  error :: "string option"

record runner =
  r_job_id :: job_id
  r_cancel_event :: nat
  r_full_sweep :: bool

text \<open>
  The globals \<^verbatim>\<open>_jobs\<close> and \<^verbatim>\<open>_active_job_id\<close>, the events created so far, and
  the runner threads started so far. Each function below is one critical section of
  \<^verbatim>\<open>_jobs_lock\<close>.
\<close>

record manager =
  jobs :: "job_id \<rightharpoonup> job"
  active_job_id :: "job_id option"
  events :: "bool list"
  threads :: "runner list"

definition manager0 :: manager where
  "manager0 = \<lparr>jobs = Map.empty, active_job_id = None, events = [], threads = []\<rparr>"

definition active_running :: "manager \<Rightarrow> bool" where
  "active_running m =
     (case active_job_id m of
        None \<Rightarrow> False
      | Some a \<Rightarrow> (case jobs m a of None \<Rightarrow> False | Some j \<Rightarrow> state j = Running))"

text \<open>\<^verbatim>\<open>start_update_job\<close>, with the clock reading and the process id.\<close>

definition start_update_job :: "int \<Rightarrow> int \<Rightarrow> bool \<Rightarrow> manager \<Rightarrow> job_id \<times> manager" where
  "start_update_job now pid full_sweep m =
     (case (if active_running m then active_job_id m else None) of
        Some a \<Rightarrow> (a, m)
      | None \<Rightarrow>
        (let jid = (now, pid); evt = length (events m)
         in (jid,
             m\<lparr>jobs := (jobs m)(jid \<mapsto>
                  \<lparr>state = Running, j_checked = 0, j_updated = 0, j_errors = 0, j_total = 0,
                   current_url = None, started_ts = now, last_change_ts = now,
                   cancel_event = Some evt, ended_ts = None, error = None\<rparr>),
               active_job_id := Some jid,
               events := events m @ [False],
               threads := threads m @
                 [\<lparr>r_job_id = jid, r_cancel_event = evt, r_full_sweep = full_sweep\<rparr>]\<rparr>)))"

text \<open>\<^verbatim>\<open>cancel_update_job\<close>\<close>

definition cancel_update_job :: "int \<Rightarrow> job_id \<Rightarrow> manager \<Rightarrow> bool \<times> manager" where
  "cancel_update_job now jid m =
     (case jobs m jid of
        None \<Rightarrow> (False, m)
      | Some j \<Rightarrow>
          (case cancel_event j of
             Some evt \<Rightarrow>
               (True, m\<lparr>events := (events m)[evt := True],
                        jobs := (jobs m)(jid \<mapsto> j\<lparr>state := Cancelling, last_change_ts := now\<rparr>)\<rparr>)
           | None \<Rightarrow> (False, m)))"

text \<open>\<^verbatim>\<open>_progress_updater\<close>, called by the sweep with \<^verbatim>\<open>state="running"\<close>.\<close>

definition progress_updater ::
  "int \<Rightarrow> job_id \<Rightarrow> nat \<Rightarrow> nat \<Rightarrow> nat \<Rightarrow> nat \<Rightarrow> string option \<Rightarrow> manager \<Rightarrow> manager" where
  "progress_updater now jid tot chk upd errs cur m =
     (case jobs m jid of
        None \<Rightarrow> m
      | Some j \<Rightarrow>
          m\<lparr>jobs := (jobs m)(jid \<mapsto>
              j\<lparr>j_total := tot, j_checked := chk, j_updated := upd, j_errors := errs,
                state := Running, current_url := cur, last_change_ts := now\<rparr>)\<rparr>)"

text \<open>
  The end of \<^verbatim>\<open>runner\<close> after the sweep has returned its counters: the job becomes
  \<^verbatim>\<open>cancelled\<close> if the runner's event is set and \<^verbatim>\<open>done\<close> otherwise.
\<close>

definition event_is_set :: "manager \<Rightarrow> nat \<Rightarrow> bool" where
  "event_is_set m evt = (evt < length (events m) \<and> events m ! evt)"

definition runner_returns :: "int \<Rightarrow> runner \<Rightarrow> sweep_state \<Rightarrow> manager \<Rightarrow> manager" where
  "runner_returns now r stats m =
     (case jobs m (r_job_id r) of
        None \<Rightarrow> m
      | Some j \<Rightarrow>
          m\<lparr>jobs := (jobs m)(r_job_id r \<mapsto>
              j\<lparr>j_checked := checked stats, j_updated := updated stats, j_errors := errors stats,
                j_total := total stats,
                state := (if event_is_set m (r_cancel_event r) then Cancelled else Done),
                ended_ts := Some now\<rparr>)\<rparr>)"

text \<open>The \<^verbatim>\<open>except Exception\<close> branch of \<^verbatim>\<open>runner\<close>.\<close>

definition runner_raises :: "int \<Rightarrow> runner \<Rightarrow> string \<Rightarrow> manager \<Rightarrow> manager" where
  "runner_raises now r msg m =
     (case jobs m (r_job_id r) of
        None \<Rightarrow> m
      | Some j \<Rightarrow>
          m\<lparr>jobs := (jobs m)(r_job_id r \<mapsto>
              j\<lparr>state := Error, error := Some msg, ended_ts := Some now\<rparr>)\<rparr>)"

section \<open>Example inputs\<close>

text \<open>
  A small environment and store on which the statements below are evaluated. The stand-in
  for the parser reads a payload as a feed whose title is the payload and which has one
  undated entry per character, with that character as its id; the stand-ins for the two
  time conversions read the timestamp off the first field and fail on short objects.
\<close>

definition toy_parse :: "string \<Rightarrow> parsed_feed" where
  "toy_parse payload =
     \<lparr>pf_title = Some payload,
      pf_entries = map (\<lambda>ch. \<lparr>pe_id = Some [ch], pe_guid = None, pe_link = None,
                              pe_title = None, pe_published = None, pe_updated = None,
                              pe_published_parsed = None, pe_updated_parsed = None,
                              pe_content = [], pe_summary = None\<rparr>) payload\<rparr>"

text \<open>
  The stand-in for \<^verbatim>\<open>str.strip\<close> removes the ASCII characters for which
  \<^verbatim>\<open>str.isspace\<close> holds from both ends.
\<close>

definition isspace :: "char \<Rightarrow> bool" where
  "isspace c = (c \<in> set [CHR 0x20, CHR 0x09, CHR 0x0A, CHR 0x0B, CHR 0x0C, CHR 0x0D,
                           CHR 0x1C, CHR 0x1D, CHR 0x1E, CHR 0x1F])"

definition strip :: "string \<Rightarrow> string" where
  "strip s = rev (dropWhile isspace (rev (dropWhile isspace s)))"

definition toy_timegm :: "struct_time \<Rightarrow> exn + int" where
  "toy_timegm st = (case tm_fields st of t # _ # _ \<Rightarrow> Inr t | _ \<Rightarrow> Inl ValueError)"

definition toy_mktime :: "struct_time \<Rightarrow> exn + int" where
  "toy_mktime st = (case tm_fields st of t # _ \<Rightarrow> Inr (t + 3600) | [] \<Rightarrow> Inl OverflowError)"

definition env0 :: env where
  "env0 = \<lparr>now_ts = 1700000000, now_year = 2023, cutoff_ts = 1697408000,
           INTERVAL_LOW = 1200, INTERVAL_MED = 3600, INTERVAL_HIGH = 7200,
           timegm = toy_timegm, mktime = toy_mktime,
           sha256_hexdigest = (\<lambda>raw. raw), str_strip = strip,
           feedparser_parse = (\<lambda>payload. Inr (toy_parse payload))\<rparr>"



definition feed_a :: feed_row where
  "feed_a = \<lparr>f_id = 1, url = ''http://a.example/feed'', title = Some ''Mine'', etag = None,
             last_modified = None, last_fetch = None, fail_count = Some 2,
             next_fetch = Some 0, month_count = Some 0, last_ok = None\<rparr>"

definition feed_b :: feed_row where
  "feed_b = \<lparr>f_id = 2, url = ''http://b.example/feed'', title = None, etag = None,
             last_modified = None, last_fetch = None, fail_count = Some 0,
             next_fetch = Some 0, month_count = Some 0, last_ok = None\<rparr>"

definition entry_old :: entry_row where
  "entry_old = \<lparr>e_id = 1, feed_id = 1, guid = ''old'', e_title = ''old'', link = None,
                published = 1600000000, content_html = [], read_at = None, bookmarked = 0,
                created_at = 1600000000\<rparr>"

definition entry_kept :: entry_row where
  "entry_kept = \<lparr>e_id = 2, feed_id = 1, guid = ''kept'', e_title = ''kept'', link = None,
                 published = 1600000000, content_html = [], read_at = None, bookmarked = 1,
                 created_at = 1600000000\<rparr>"

definition store0 :: store where
  "store0 = \<lparr>feeds = [feed_a, feed_b], entries = [entry_old, entry_kept]\<rparr>"

definition state0 :: sweep_state where
  "state0 = \<lparr>db = store0, total = 2, checked = 0, updated = 0, errors = 0, reads = 2,
             txn_log = [BEGIN]\<rparr>"

definition net0 :: "feed_row \<Rightarrow> fetch_result" where
  "net0 f = (if f_id f = 1 then Ok ''ab'' (Some ''v1'') None else Not_modified)"

definition net1 :: "feed_row \<Rightarrow> fetch_result" where
  "net1 f = Not_modified"

text \<open>
  Job manager states: \<open>m1\<close> after a first start, \<open>m2\<close> after cancelling that job,
  \<open>m3\<close> after a second start; \<open>m_done\<close> after the runner of the first job has returned
  without a cancellation.
\<close>

definition m1 :: manager where
  "m1 = snd (start_update_job 100 7 True manager0)"

definition m2 :: manager where
  "m2 = snd (cancel_update_job 101 (100, 7) m1)"

definition m3 :: manager where
  "m3 = snd (start_update_job 102 7 True m2)"

definition m_done :: manager where
  "m_done = runner_returns 120 \<lparr>r_job_id = (100, 7), r_cancel_event = 0, r_full_sweep = True\<rparr>
              state0 m1"

section \<open>Properties\<close>

subsection \<open>Statements on the tables\<close>

lemma fetchone_update_same:
  assumes "\<And>f. f_id (upd f) = f_id f"
  shows "fetchone_feed (update_feed fid upd d) fid = map_option upd (fetchone_feed d fid)"
proof -
  have "find (\<lambda>f. f_id f = fid) (map (\<lambda>f. if f_id f = fid then upd f else f) xs)
        = map_option upd (find (\<lambda>f. f_id f = fid) xs)" for xs
    by (induction xs) (simp_all add: assms)
  then show ?thesis by (simp add: fetchone_feed_def update_feed_def)
qed

lemma fetchone_update_other:
  assumes "\<And>f. f_id (upd f) = f_id f" and "fid' \<noteq> fid"
  shows "fetchone_feed (update_feed fid upd d) fid' = fetchone_feed d fid'"
proof -
  have "find (\<lambda>f. f_id f = fid') (map (\<lambda>f. if f_id f = fid then upd f else f) xs)
        = find (\<lambda>f. f_id f = fid') xs" for xs
    using assms by (induction xs) simp_all
  then show ?thesis by (simp add: fetchone_feed_def update_feed_def)
qed


lemma update_feed_entries [simp]: "entries (update_feed fid upd d) = entries d"
  by (simp add: update_feed_def)

lemma insert_or_ignore_feeds [simp]:
  "feeds (fst (insert_or_ignore fid g t l pub html cr d)) = feeds d"
  by (simp add: insert_or_ignore_def)




lemma insert_or_ignore_entries:
  "\<exists>new. entries (fst (insert_or_ignore fid g t l pub html cr d)) = entries d @ new
       \<and> (\<forall>r \<in> set new. feed_id r = fid \<and> published r = pub \<and> bookmarked r = 0)"
  by (simp add: insert_or_ignore_def)

lemma insert_or_ignore_unique:
  "unique_keys (entries d) \<Longrightarrow> unique_keys (entries (fst (insert_or_ignore fid g t l pub html cr d)))"
  by (auto simp: insert_or_ignore_def unique_keys_def has_key_def list_ex_iff)

subsection \<open>The loop over the parsed entries\<close>

lemma entry_loop_feeds:
  "feeds (db (fst (entry_loop ev c fid es (s, a)))) = feeds (db s)"
proof (induction es arbitrary: s a)
  case Nil
  show ?case by simp
next
  case (Cons e es)
  show ?case
    by (simp add: Let_def Cons.IH case_prod_beta split: sum.split)
qed

lemma entry_loop_total [simp]: "total (fst (entry_loop ev c fid es (s, a))) = total s"
  by (induction es arbitrary: s a) (simp_all add: Let_def case_prod_beta split: sum.split)

lemma entry_loop_checked [simp]: "checked (fst (entry_loop ev c fid es (s, a))) = checked s"
  by (induction es arbitrary: s a) (simp_all add: Let_def case_prod_beta split: sum.split)

lemma entry_loop_updated [simp]: "updated (fst (entry_loop ev c fid es (s, a))) = updated s"
  by (induction es arbitrary: s a) (simp_all add: Let_def case_prod_beta split: sum.split)

lemma entry_loop_txn_log [simp]: "txn_log (fst (entry_loop ev c fid es (s, a))) = txn_log s"
  by (induction es arbitrary: s a) (simp_all add: Let_def case_prod_beta split: sum.split)

lemma entry_loop_reads: "reads s \<le> reads (fst (entry_loop ev c fid es (s, a)))"
proof (induction es arbitrary: s a)
  case Nil
  show ?case by simp
next
  case (Cons e es)
  have step: "reads s \<le> reads (fst (entry_loop ev c fid es (s', a')))"
    if "reads s' = Suc (reads s)" for s' a'
    using Cons.IH [of s' a'] that by simp
  show ?case
    by (simp add: Let_def step case_prod_beta split: sum.split)
qed


lemma entry_loop_entries:
  "\<exists>new. entries (db (fst (entry_loop ev c fid es (s, a)))) = entries (db s) @ new
       \<and> (\<forall>r \<in> set new. feed_id r = fid \<and> cutoff_ts ev \<le> published r \<and> bookmarked r = 0)"
proof (induction es arbitrary: s a)
  case Nil
  show ?case by simp
next
  case (Cons e es)
  let ?P = "\<lambda>new. \<forall>r \<in> set new. feed_id r = fid \<and> cutoff_ts ev \<le> published r \<and> bookmarked r = 0"
  have step: "\<exists>new. entries (db (fst (entry_loop ev c fid es (s', a')))) = entries (db s) @ new \<and> ?P new"
    if "\<exists>new. entries (db s') = entries (db s) @ new \<and> ?P new" for s' a'
  proof -
    from that obtain n1 where n1: "entries (db s') = entries (db s) @ n1" "?P n1" by blast
    from Cons.IH [of s' a'] obtain n2
      where n2: "entries (db (fst (entry_loop ev c fid es (s', a')))) = entries (db s') @ n2" "?P n2"
      by blast
    from n1 n2 have "entries (db (fst (entry_loop ev c fid es (s', a')))) = entries (db s) @ (n1 @ n2)"
      and "?P (n1 @ n2)" by auto
    then show ?thesis by blast
  qed
  have ins: "\<exists>new. entries (fst (insert_or_ignore fid g t l pub html cr (db s))) = entries (db s) @ new \<and> ?P new"
    if "cutoff_ts ev \<le> pub" for g t l pub html cr
    using insert_or_ignore_entries [of fid g t l pub html cr "db s"] that by auto
  show ?case
    apply (simp add: Let_def case_prod_beta split: sum.split)
    apply (intro conjI impI allI step)
       apply simp_all
    apply (metis ins not_le)
    done
qed



lemma entry_loop_unique:
  "unique_keys (entries (db s)) \<Longrightarrow> unique_keys (entries (db (fst (entry_loop ev c fid es (s, a)))))"
proof (induction es arbitrary: s a)
  case Nil
  then show ?case by simp
next
  case (Cons e es)
  have step: "unique_keys (entries (db (fst (entry_loop ev c fid es (s', a')))))"
    if "unique_keys (entries (db s'))" for s' a'
    using Cons.IH [of s' a'] that by simp
  show ?case
    using Cons.prems
    by (simp add: Let_def case_prod_beta insert_or_ignore_unique step split: sum.split)
qed




subsection \<open>Reconciling one result\<close>

lemma update_feed_filter_other:
  assumes "\<And>f. f_id (upd f) = f_id f"
  shows "filter (\<lambda>f. f_id f \<noteq> fid) (feeds (update_feed fid upd d)) = filter (\<lambda>f. f_id f \<noteq> fid) (feeds d)"
proof -
  have "filter (\<lambda>f. f_id f \<noteq> fid) (map (\<lambda>f. if f_id f = fid then upd f else f) xs)
        = filter (\<lambda>f. f_id f \<noteq> fid) xs" for xs
    by (induction xs) (simp_all add: assms)
  then show ?thesis by (simp add: update_feed_def)
qed

lemma recompute_entries [simp]: "entries (recompute_month_count fid cutoff d) = entries d"
  by (simp add: recompute_month_count_def Let_def)

lemma schedule_next_entries [simp]: "entries (schedule_next ev fid d) = entries d"
  by (simp add: schedule_next_def Let_def)

lemma ok_fields_id [simp]: "f_id (ok_fields ev t e l f) = f_id f"
  by (simp add: ok_fields_def)

lemma ok_fields_fail_count [simp]: "fail_count (ok_fields ev t e l f) = Some 0"
  by (simp add: ok_fields_def)

lemma reconcile_total [simp]: "total (reconcile ev c res s) = total s"
  by (simp add: reconcile_def Let_def case_prod_beta split: fetch_result.split option.split sum.split)

lemma reconcile_txn_log [simp]: "txn_log (reconcile ev c res s) = txn_log s"
  by (simp add: reconcile_def Let_def case_prod_beta split: fetch_result.split option.split sum.split)

lemma reconcile_checked [simp]: "checked (reconcile ev c res s) = Suc (checked s)"
  by (simp add: reconcile_def Let_def case_prod_beta split: fetch_result.split option.split sum.split)

lemma reconcile_reads: "reads s \<le> reads (reconcile ev c res s)"
proof -
  have "reads s \<le> reads (fst (entry_loop ev c fid es (s', a)))" if "reads s' = reads s" for s' fid es a
    using entry_loop_reads [of s' ev c fid es a] that by simp
  then show ?thesis
    by (simp add: reconcile_def Let_def case_prod_beta split: fetch_result.split option.split sum.split)
qed

lemma reconcile_entries:
  "\<exists>new. entries (db (reconcile ev c res s)) = entries (db s) @ new
       \<and> (\<forall>r \<in> set new. feed_id r = fst res \<and> cutoff_ts ev \<le> published r \<and> bookmarked r = 0)"
proof -
  have "\<exists>new. entries (db (fst (entry_loop ev c fid es (s', a)))) = entries (db s) @ new
       \<and> (\<forall>r \<in> set new. feed_id r = fid \<and> cutoff_ts ev \<le> published r \<and> bookmarked r = 0)"
    if "entries (db s') = entries (db s)" for s' fid es a
    using entry_loop_entries [of ev c fid es s' a] that by simp
  then show ?thesis
    by (simp add: reconcile_def Let_def case_prod_beta split: fetch_result.split option.split sum.split)
qed

lemma reconcile_unique:
  "unique_keys (entries (db s)) \<Longrightarrow> unique_keys (entries (db (reconcile ev c res s)))"
proof -
  assume u: "unique_keys (entries (db s))"
  have "unique_keys (entries (db (fst (entry_loop ev c fid es (s', a)))))"
    if "entries (db s') = entries (db s)" for s' fid es a
    using entry_loop_unique [of s' ev c fid es a] that u by simp
  then show ?thesis using u
    by (simp add: reconcile_def Let_def case_prod_beta split: fetch_result.split option.split sum.split)
qed

lemma reconcile_feeds_other:
  "filter (\<lambda>f. f_id f \<noteq> fid) (feeds (db (reconcile ev c (fid, r) s)))
   = filter (\<lambda>f. f_id f \<noteq> fid) (feeds (db s))"
  by (simp add: reconcile_def Let_def case_prod_beta update_feed_filter_other
        recompute_month_count_def schedule_next_def entry_loop_feeds
      split: fetch_result.split option.split sum.split)

lemma reconcile_fetchone_other:
  "fid' \<noteq> fid \<Longrightarrow> fetchone_feed (db (reconcile ev c (fid, r) s)) fid' = fetchone_feed (db s) fid'"
proof -
  assume ne: "fid' \<noteq> fid"
  have "find (\<lambda>f. f_id f = fid') xs = find (\<lambda>f. f_id f = fid') (filter (\<lambda>f. f_id f \<noteq> fid) xs)" for xs
    using ne by (induction xs) auto
  then show ?thesis
    unfolding fetchone_feed_def using reconcile_feeds_other [of fid ev c r s] by metis
qed

lemma reconcile_not_modified:
  "fetchone_feed (db (reconcile ev c (fid, Not_modified) s)) fid
   = map_option (\<lambda>f. f\<lparr>last_fetch := Some (now_ts ev), fail_count := Some 0,
        next_fetch := Some (now_ts ev + choose_interval ev (read_month_count (db s) fid))\<rparr>)
      (fetchone_feed (db s) fid)"
  by (simp add: reconcile_def Let_def fetchone_update_same)

lemma reconcile_error:
  assumes "fetchone_feed (db s) fid = Some row" and "r = Http_error code \<or> r = Exception msg"
  shows "fetchone_feed (db (reconcile ev c (fid, r) s)) fid =
     Some (row\<lparr>last_fetch := Some (now_ts ev),
               fail_count := Some (read_fail_count row + 1),
               next_fetch := Some (now_ts ev + backoff (read_fail_count row + 1))\<rparr>)"
  using assms by (auto simp: reconcile_def Let_def fetchone_update_same)

lemma fetchone_cong: "feeds d = feeds d' \<Longrightarrow> fetchone_feed d fid = fetchone_feed d' fid"
  by (simp add: fetchone_feed_def)

lemma entry_loop_fetchone:
  "fetchone_feed (db (fst (entry_loop ev c fid es (s, a)))) fid' = fetchone_feed (db s) fid'"
  by (rule fetchone_cong) (rule entry_loop_feeds)

lemma reconcile_ok_fail_count:
  assumes "fetchone_feed (db s) fid = Some row" and "feedparser_parse ev p = Inr parsed"
  shows "\<exists>row'. fetchone_feed (db (reconcile ev c (fid, Ok p e l) s)) fid = Some row'
           \<and> fail_count row' = Some 0"
  using assms
  by (simp add: reconcile_def Let_def case_prod_beta fetchone_update_same
          recompute_month_count_def schedule_next_def entry_loop_fetchone)


lemma title_after_ok:
  assumes "feedparser_parse ev p = Inr parsed"
  shows "map_option title (fetchone_feed (db (reconcile ev c (fid, Ok p e l) s)) fid)
   = map_option (\<lambda>f. case strip_or_None ev (pf_title parsed) of
                        Some t \<Rightarrow> Some t | None \<Rightarrow> title f)
       (fetchone_feed (db s) fid)"
  using assms
  by (simp add: reconcile_def Let_def case_prod_beta fetchone_update_same
        recompute_month_count_def schedule_next_def entry_loop_fetchone
        option.map_comp comp_def ok_fields_def)


subsection \<open>Reconciling the same body again\<close>


















subsection \<open>Dispatching fetches and collecting results\<close>

lemma result_loop_total [simp]: "total (result_loop ev c rs s) = total s"
  by (induction rs arbitrary: s) simp_all

lemma result_loop_txn_log [simp]: "txn_log (result_loop ev c rs s) = txn_log s"
  by (induction rs arbitrary: s) simp_all

lemma result_loop_cancelled:
  "is_set c (reads s) \<Longrightarrow> result_loop ev c rs s = (if rs = [] then s else s\<lparr>reads := Suc (reads s)\<rparr>)"
  by (cases rs) simp_all

lemma result_loop_entries:
  "\<exists>new. entries (db (result_loop ev c rs s)) = entries (db s) @ new
       \<and> (\<forall>r \<in> set new. feed_id r \<in> fst ` set rs \<and> cutoff_ts ev \<le> published r \<and> bookmarked r = 0)"
proof (induction rs arbitrary: s)
  case Nil
  show ?case by simp
next
  case (Cons x rs)
  show ?case
  proof (cases "is_set c (reads s)")
    case True
    then show ?thesis by simp
  next
    case False
    let ?s1 = "reconcile ev c x (s\<lparr>reads := Suc (reads s)\<rparr>)"
    from reconcile_entries [of ev c x "s\<lparr>reads := Suc (reads s)\<rparr>"] obtain n1
      where n1: "entries (db ?s1) = entries (db s) @ n1"
        "\<forall>r \<in> set n1. feed_id r = fst x \<and> cutoff_ts ev \<le> published r \<and> bookmarked r = 0"
      by auto
    from Cons.IH [of ?s1] obtain n2
      where n2: "entries (db (result_loop ev c rs ?s1)) = entries (db ?s1) @ n2"
        "\<forall>r \<in> set n2. feed_id r \<in> fst ` set rs \<and> cutoff_ts ev \<le> published r \<and> bookmarked r = 0"
      by blast
    have "entries (db (result_loop ev c (x # rs) s)) = entries (db s) @ (n1 @ n2)"
      using False n1(1) n2(1) by simp
    moreover have "\<forall>r \<in> set (n1 @ n2). feed_id r \<in> fst ` set (x # rs)
        \<and> cutoff_ts ev \<le> published r \<and> bookmarked r = 0"
      using n1(2) n2(2) by auto
    ultimately show ?thesis by blast
  qed
qed

lemma result_loop_unique:
  "unique_keys (entries (db s)) \<Longrightarrow> unique_keys (entries (db (result_loop ev c rs s)))"
proof (induction rs arbitrary: s)
  case Nil
  then show ?case by simp
next
  case (Cons x rs)
  have "unique_keys (entries (db (reconcile ev c x (s\<lparr>reads := Suc (reads s)\<rparr>))))"
    using Cons.prems reconcile_unique [of "s\<lparr>reads := Suc (reads s)\<rparr>" ev c x] by simp
  from Cons.IH [OF this] Cons.prems show ?case by simp
qed

lemma result_loop_checked: "checked (result_loop ev c rs s) \<le> checked s + length rs"
proof (induction rs arbitrary: s)
  case Nil
  show ?case by simp
next
  case (Cons x rs)
  show ?case using Cons.IH [of "reconcile ev c x (s\<lparr>reads := Suc (reads s)\<rparr>)"] by simp
qed

lemma result_loop_all:
  "c = None \<Longrightarrow> checked (result_loop ev c rs s) = checked s + length rs"
proof (induction rs arbitrary: s)
  case Nil
  show ?case by simp
next
  case (Cons x rs)
  show ?case using Cons.IH [of "reconcile ev c x (s\<lparr>reads := Suc (reads s)\<rparr>)"] Cons.prems
    by (simp add: is_set_def)
qed

lemma dispatch_loop_take:
  "fst (dispatch_loop (Some k) fs r) = take (k - r) fs"
proof (induction fs arbitrary: r)
  case Nil
  show ?case by simp
next
  case (Cons f fs)
  show ?case
  proof (cases "k \<le> r")
    case True
    then show ?thesis by (simp add: is_set_def)
  next
    case False
    then have "k - r = Suc (k - Suc r)" by simp
    then show ?thesis using False Cons.IH [of "Suc r"]
      by (simp add: is_set_def case_prod_beta)
  qed
qed

lemma dispatch_loop_None: "fst (dispatch_loop None fs r) = fs"
  by (induction fs arbitrary: r) (simp_all add: is_set_def case_prod_beta)

lemma dispatch_loop_observed:
  "k - r < length fs \<Longrightarrow> is_set (Some k) (snd (dispatch_loop (Some k) fs r))"
proof (induction fs arbitrary: r)
  case Nil
  then show ?case by simp
next
  case (Cons f fs)
  show ?case
  proof (cases "k \<le> r")
    case True
    then show ?thesis by (simp add: is_set_def)
  next
    case False
    then have "k - Suc r < length fs" using Cons.prems by simp
    from Cons.IH [OF this] False show ?thesis
      by (simp add: is_set_def case_prod_beta)
  qed
qed

subsection \<open>A whole sweep\<close>

lemma sweep_nonempty:
  assumes "select_feeds ev ids od d \<noteq> []"
  shows "update_feeds_async ev net done_at c ids od d =
    (result_loop ev c
       (map (fetch_one net) (sort_key done_at (fst (dispatch_loop c (select_feeds ev ids od d) 0))))
       \<lparr>db = d, total = length (select_feeds ev ids od d), checked = 0, updated = 0, errors = 0,
        reads = snd (dispatch_loop c (select_feeds ev ids od d) 0), txn_log = [BEGIN]\<rparr>)
    \<lparr>db := delete_old (cutoff_ts ev) (db (result_loop ev c
       (map (fetch_one net) (sort_key done_at (fst (dispatch_loop c (select_feeds ev ids od d) 0))))
       \<lparr>db = d, total = length (select_feeds ev ids od d), checked = 0, updated = 0, errors = 0,
        reads = snd (dispatch_loop c (select_feeds ev ids od d) 0), txn_log = [BEGIN]\<rparr>)),
     txn_log := [BEGIN, DELETE_OLD, COMMIT]\<rparr>"
  using assms by (simp add: update_feeds_async_def Let_def case_prod_beta)

lemma sweep_entries:
  assumes "select_feeds ev ids od d \<noteq> []"
  shows "\<exists>new. (\<forall>r \<in> set new. cutoff_ts ev \<le> published r \<and> bookmarked r = 0)
     \<and> entries (db (update_feeds_async ev net done_at c ids od d))
        = filter (\<lambda>r. \<not> (published r < cutoff_ts ev \<and> bookmarked r = 0)) (entries d) @ new"
proof -
  let ?s1 = "\<lparr>db = d, total = length (select_feeds ev ids od d), checked = 0, updated = 0,
        errors = 0, reads = snd (dispatch_loop c (select_feeds ev ids od d) 0), txn_log = [BEGIN]\<rparr>"
  let ?rs = "map (fetch_one net) (sort_key done_at (fst (dispatch_loop c (select_feeds ev ids od d) 0)))"
  from result_loop_entries [of ev c ?rs ?s1] obtain new
    where new: "entries (db (result_loop ev c ?rs ?s1)) = entries d @ new"
      "\<forall>r \<in> set new. cutoff_ts ev \<le> published r \<and> bookmarked r = 0"
    by auto
  define keep where "keep = (\<lambda>r::entry_row. \<not> (published r < cutoff_ts ev \<and> bookmarked r = 0))"
  have k: "filter keep new = new"
  proof (rule filter_True, rule ballI)
    fix r assume "r \<in> set new"
    with new(2) have "cutoff_ts ev \<le> published r" by blast
    then show "keep r" by (simp add: keep_def)
  qed
  have "entries (db (update_feeds_async ev net done_at c ids od d))
        = filter keep (entries (db (result_loop ev c ?rs ?s1)))"
    by (simp add: sweep_nonempty [OF assms] delete_old_def keep_def)
  also have "\<dots> = filter keep (entries d) @ new"
    by (simp add: new(1) k)
  finally have "entries (db (update_feeds_async ev net done_at c ids od d))
        = filter (\<lambda>r. \<not> (published r < cutoff_ts ev \<and> bookmarked r = 0)) (entries d) @ new"
    by (simp add: keep_def)
  with new(2) show ?thesis by blast
qed

lemma sweep0_entries:
  "map guid (entries (db (update_feeds_async env0 net0 f_id None [] False store0)))
   = [''kept'', ''a'', ''b'']"
  by (simp add: update_feeds_async_def select_feeds_def store0_def Let_def is_set_def
        fetch_one_def net0_def feed_a_def feed_b_def reconcile_def env0_def toy_parse_def
        entry_published_ts_def stable_guid_def or_str_def or_empty_def insert_or_ignore_def
        has_key_def entry_old_def entry_kept_def delete_old_def strip_or_None_def strip_def
        isspace_def update_feed_def ok_fields_def schedule_next_def recompute_month_count_def
        read_month_count_def fetchone_feed_def choose_interval_def new_rowid_def)

lemma sweep_uncancelled:
  "checked (update_feeds_async ev net done_at None ids od d) = length (select_feeds ev ids od d)"
proof (cases "select_feeds ev ids od d = []")
  case True
  then show ?thesis by (simp add: update_feeds_async_def)
next
  case False
  then show ?thesis
    by (simp add: sweep_nonempty result_loop_all dispatch_loop_None)
qed

lemma sweep_unique:
  assumes "unique_keys (entries d)"
  shows "unique_keys (entries (db (update_feeds_async ev net done_at c ids od d)))"
proof (cases "select_feeds ev ids od d = []")
  case True
  then show ?thesis using assms by (simp add: update_feeds_async_def)
next
  case False
  let ?s1 = "\<lparr>db = d, total = length (select_feeds ev ids od d), checked = 0, updated = 0,
        errors = 0, reads = snd (dispatch_loop c (select_feeds ev ids od d) 0), txn_log = [BEGIN]\<rparr>"
  let ?rs = "map (fetch_one net) (sort_key done_at (fst (dispatch_loop c (select_feeds ev ids od d) 0)))"
  have "unique_keys (entries (db (result_loop ev c ?rs ?s1)))"
    using assms by (intro result_loop_unique) simp
  then show ?thesis
    by (simp add: sweep_nonempty [OF False] delete_old_def unique_keys_def distinct_map_filter)
qed

subsection \<open>Job manager\<close>

lemma m1_eval:
  "active_job_id m1 = Some (100, 7) \<and> map_option state (jobs m1 (100, 7)) = Some Running
   \<and> length (threads m1) = 1 \<and> events m1 = [False]"
  by (simp add: m1_def start_update_job_def active_running_def manager0_def Let_def)

lemma cancel_unknown:
  "jobs m jid = None \<Longrightarrow> cancel_update_job now jid m = (False, m)"
  by (simp add: cancel_update_job_def)

subsection \<open>Backoff\<close>

lemma backoff_mono: "m \<le> n \<Longrightarrow> backoff m \<le> backoff n"
  unfolding backoff_def
  by (intro min.mono order_refl mult_right_mono power_increasing) (auto simp: min_def)

lemma backoff_flat: "8 \<le> n \<Longrightarrow> backoff n = 15360"
  by (simp add: backoff_def min_absorb2)

section \<open>The claims\<close>

text \<open>
  C1, as the code has it. A feed whose row has failure streak \<open>f\<close> (NULL read as 0) and
  which receives an HTTP error or a transport exception gets \<open>fail_count = f + 1\<close> and
  \<open>next_fetch = now + backoff (f + 1)\<close>, where \<open>backoff n = min(6h, 60s * 2^min(n,8))\<close>.
  \<open>backoff 1\<close> is 120 s, \<open>backoff 3\<close> is 480 s, \<open>backoff\<close> never decreases, and from 8 failures
  on it stays at \<open>60 * 2^8 = 15360\<close> seconds: the exponent cap keeps it below the 6 hour
  ceiling of 21600 seconds, which is never reached.
\<close>

theorem backoff_after_error:
  assumes "fetchone_feed (db s) fid = Some row" and "r = Http_error code \<or> r = Exception msg"
  shows "fetchone_feed (db (reconcile ev c (fid, r) s)) fid =
           Some (row\<lparr>last_fetch := Some (now_ts ev),
                     fail_count := Some (read_fail_count row + 1),
                     next_fetch := Some (now_ts ev + backoff (read_fail_count row + 1))\<rparr>)
       \<and> backoff n = min 21600 (60 * 2 ^ min n 8)
       \<and> backoff 1 = 120 \<and> backoff 3 = 480
       \<and> (m \<le> n \<longrightarrow> backoff m \<le> backoff n)
       \<and> (8 \<le> n \<longrightarrow> backoff n = 15360)"
  using reconcile_error [OF assms] backoff_mono [of m n] backoff_flat [of n]
  by (simp add: backoff_def)

theorem backoff_after_error_witness:
  "fetchone_feed (db state0) 1 = Some feed_a
   \<and> fetchone_feed (db (reconcile env0 None (1, Http_error 500) state0)) 1 =
       Some (feed_a\<lparr>last_fetch := Some 1700000000, fail_count := Some 3,
                    next_fetch := Some (1700000000 + 480)\<rparr>)
   \<and> (7::nat) \<le> 9 \<and> backoff 7 \<le> backoff 9 \<and> backoff 9 = 15360"
proof -
  have h: "fetchone_feed (db state0) 1 = Some feed_a"
    by (simp add: state0_def store0_def fetchone_feed_def feed_a_def)
  have r: "Http_error 500 = Http_error 500 \<or> Http_error 500 = Exception []" by simp
  show ?thesis
    using h backoff_after_error [OF h r, of env0 None 9 7]
    by (simp add: read_fail_count_def feed_a_def env0_def)
qed

text \<open>
  C1 as the specification states it fails at 8 failures: the backoff is 15360 seconds
  there, not 21600.
\<close>

theorem backoff_ceiling_counterexample: "(8::nat) \<le> 8 \<and> backoff 8 \<noteq> 21600"
  by (simp add: backoff_def)

text \<open>
  C9. \<^verbatim>\<open>safe_struct_time_to_ts\<close> returns a timestamp for every input and never raises.
  When the year cannot be read, or lies outside 1971 .. current year + 5, the result is the
  current time. Otherwise it is the UTC conversion when that succeeds, the local-time
  conversion when only that succeeds, and the current time when both fail.
\<close>

theorem safe_struct_time_to_ts_total:
  "(\<exists>t. safe_struct_time_to_ts ev st = Inr t)
   \<and> (tm_year st = None \<longrightarrow> safe_struct_time_to_ts ev st = Inr (now_ts ev))
   \<and> (tm_year st = Some y \<and> (y < 1971 \<or> y > now_year ev + 5)
        \<longrightarrow> safe_struct_time_to_ts ev st = Inr (now_ts ev))
   \<and> (tm_year st = Some y \<and> 1971 \<le> y \<and> y \<le> now_year ev + 5 \<longrightarrow>
        (timegm ev st = Inr t \<longrightarrow> safe_struct_time_to_ts ev st = Inr t)
      \<and> (timegm ev st = Inl x \<and> mktime ev st = Inr t \<longrightarrow> safe_struct_time_to_ts ev st = Inr t)
      \<and> (timegm ev st = Inl x \<and> mktime ev st = Inl x'
           \<longrightarrow> safe_struct_time_to_ts ev st = Inr (now_ts ev)))"
  by (auto simp: safe_struct_time_to_ts_def read_tm_year_def split: sum.split option.split)

theorem safe_struct_time_to_ts_total_witness:
  "safe_struct_time_to_ts env0 (Struct_time (Some 9999) [253370764800, 0]) = Inr 1700000000
   \<and> safe_struct_time_to_ts env0 (Struct_time None []) = Inr 1700000000
   \<and> safe_struct_time_to_ts env0 (Struct_time (Some 2023) [1699000000, 0]) = Inr 1699000000
   \<and> safe_struct_time_to_ts env0 (Struct_time (Some 2023) [1699000000]) = Inr 1699003600
   \<and> safe_struct_time_to_ts env0 (Struct_time (Some 2023) []) = Inr 1700000000"
  using safe_struct_time_to_ts_total [of env0 "Struct_time (Some 9999) [253370764800, 0]" 9999]
    safe_struct_time_to_ts_total [of env0 "Struct_time None []"]
    safe_struct_time_to_ts_total [of env0 "Struct_time (Some 2023) [1699000000, 0]" 2023 1699000000]
    safe_struct_time_to_ts_total [of env0 "Struct_time (Some 2023) [1699000000]" 2023 1699003600 ValueError]
    safe_struct_time_to_ts_total [of env0 "Struct_time (Some 2023) []" 2023 0 ValueError OverflowError]
  by (simp add: env0_def toy_timegm_def toy_mktime_def)




text \<open>
  C5 fails in the code. The ok branch writes \<^verbatim>\<open>title=COALESCE(?, title)\<close> with the
  parsed title as parameter, so a feed row titled \<^verbatim>\<open>Mine\<close> that receives a body
  titled \<^verbatim>\<open>Theirs\<close> is retitled \<^verbatim>\<open>Theirs\<close>. (\<^verbatim>\<open>api_feed_create\<close> guards the
  same update with \<^verbatim>\<open>if title and not existing["title"]\<close>.)
\<close>

theorem title_overwritten:
  "map_option title (fetchone_feed (db state0) 1) = Some (Some ''Mine'')
   \<and> map_option title (fetchone_feed (db (reconcile env0 None (1, Ok ''Theirs'' None None) state0)) 1)
       = Some (Some ''Theirs'')"
proof -
  have p: "feedparser_parse env0 ''Theirs'' = Inr (toy_parse ''Theirs'')"
    by (simp add: env0_def)
  show ?thesis
    by (simp add: title_after_ok [OF p])
       (simp add: state0_def store0_def fetchone_feed_def feed_a_def env0_def toy_parse_def
          strip_or_None_def strip_def or_empty_def isspace_def)
qed






text \<open>
  C8. Reconciling a result deletes no entry and appends only entries whose
  \<^verbatim>\<open>published\<close> is at or above the cutoff. A sweep that selected at least one feed
  ends with exactly one \<^verbatim>\<open>DELETE\<close> of old entries, after all results are reconciled:
  afterwards every entry is at or above the cutoff or bookmarked, every entry that was
  below the cutoff and not bookmarked is gone, and every bookmarked entry is still there.
\<close>

theorem retention:
  "(\<exists>new. entries (db (reconcile ev c res s)) = entries (db s) @ new
       \<and> (\<forall>r \<in> set new. cutoff_ts ev \<le> published r))
   \<and> (select_feeds ev ids od d \<noteq> [] \<longrightarrow>
        (\<forall>r \<in> set (entries (db (update_feeds_async ev net done_at c' ids od d))).
            cutoff_ts ev \<le> published r \<or> bookmarked r \<noteq> 0)
      \<and> (\<forall>r \<in> set (entries d).
            published r < cutoff_ts ev \<and> bookmarked r = 0
            \<longrightarrow> r \<notin> set (entries (db (update_feeds_async ev net done_at c' ids od d))))
      \<and> (\<forall>r \<in> set (entries d).
            bookmarked r \<noteq> 0
            \<longrightarrow> r \<in> set (entries (db (update_feeds_async ev net done_at c' ids od d))))
      \<and> txn_log (update_feeds_async ev net done_at c' ids od d) = [BEGIN, DELETE_OLD, COMMIT])"
proof (intro conjI impI)
  show "\<exists>new. entries (db (reconcile ev c res s)) = entries (db s) @ new
       \<and> (\<forall>r \<in> set new. cutoff_ts ev \<le> published r)"
    using reconcile_entries [of ev c res s] by blast
next
  assume ne: "select_feeds ev ids od d \<noteq> []"
  from sweep_entries [OF ne, of net done_at c'] obtain new
    where new: "\<forall>r \<in> set new. cutoff_ts ev \<le> published r \<and> bookmarked r = 0"
      "entries (db (update_feeds_async ev net done_at c' ids od d))
        = filter (\<lambda>r. \<not> (published r < cutoff_ts ev \<and> bookmarked r = 0)) (entries d) @ new"
    by blast
  show "\<forall>r \<in> set (entries (db (update_feeds_async ev net done_at c' ids od d))).
            cutoff_ts ev \<le> published r \<or> bookmarked r \<noteq> 0"
    using new by auto
  show "\<forall>r \<in> set (entries d). published r < cutoff_ts ev \<and> bookmarked r = 0
            \<longrightarrow> r \<notin> set (entries (db (update_feeds_async ev net done_at c' ids od d)))"
    using new by auto
  show "\<forall>r \<in> set (entries d). bookmarked r \<noteq> 0
            \<longrightarrow> r \<in> set (entries (db (update_feeds_async ev net done_at c' ids od d)))"
    using new by auto
  show "txn_log (update_feeds_async ev net done_at c' ids od d) = [BEGIN, DELETE_OLD, COMMIT]"
    by (simp add: sweep_nonempty [OF ne])
qed

theorem retention_witness:
  "select_feeds env0 [] False store0 \<noteq> []
   \<and> entry_old \<in> set (entries store0) \<and> published entry_old < cutoff_ts env0
   \<and> bookmarked entry_old = 0
   \<and> entry_old \<notin> set (entries (db (update_feeds_async env0 net0 f_id None [] False store0)))
   \<and> entry_kept \<in> set (entries store0) \<and> published entry_kept < cutoff_ts env0
   \<and> bookmarked entry_kept \<noteq> 0
   \<and> entry_kept \<in> set (entries (db (update_feeds_async env0 net0 f_id None [] False store0)))
   \<and> txn_log (update_feeds_async env0 net0 f_id None [] False store0) = [BEGIN, DELETE_OLD, COMMIT]"
proof -
  have ne: "select_feeds env0 [] False store0 \<noteq> []"
    by (simp add: select_feeds_def store0_def)
  have old: "entry_old \<in> set (entries store0)" "published entry_old < cutoff_ts env0"
      "bookmarked entry_old = 0"
    by (simp_all add: store0_def entry_old_def env0_def)
  have kept: "entry_kept \<in> set (entries store0)" "published entry_kept < cutoff_ts env0"
      "bookmarked entry_kept \<noteq> 0"
    by (simp_all add: store0_def entry_kept_def env0_def)
  from retention [of env0 None "(1, Not_modified)" state0 "[]" False store0 net0 f_id None] ne
  have "(\<forall>r \<in> set (entries store0). published r < cutoff_ts env0 \<and> bookmarked r = 0
            \<longrightarrow> r \<notin> set (entries (db (update_feeds_async env0 net0 f_id None [] False store0))))"
    and "(\<forall>r \<in> set (entries store0). bookmarked r \<noteq> 0
            \<longrightarrow> r \<in> set (entries (db (update_feeds_async env0 net0 f_id None [] False store0))))"
    and "txn_log (update_feeds_async env0 net0 f_id None [] False store0) = [BEGIN, DELETE_OLD, COMMIT]"
    by blast+
  with ne old kept show ?thesis by blast
qed

text \<open>
  C10. When no feed is selected, \<^verbatim>\<open>update_feeds_async\<close> returns the four counters at
  0 with the store as it was: no \<^verbatim>\<open>BEGIN\<close>, no \<^verbatim>\<open>DELETE\<close> of old entries and no
  \<^verbatim>\<open>COMMIT\<close> is executed.
\<close>

theorem empty_sweep:
  assumes "select_feeds ev ids od d = []"
  shows "update_feeds_async ev net done_at c ids od d
         = \<lparr>db = d, total = 0, checked = 0, updated = 0, errors = 0, reads = 0, txn_log = []\<rparr>"
  using assms by (simp add: update_feeds_async_def)

theorem empty_sweep_witness:
  "select_feeds env0 [99] False store0 = []
   \<and> select_feeds (env0\<lparr>now_ts := - 1\<rparr>) [] True store0 = []
   \<and> update_feeds_async env0 net0 f_id (Some 0) [99] False store0
       = \<lparr>db = store0, total = 0, checked = 0, updated = 0, errors = 0, reads = 0, txn_log = []\<rparr>
   \<and> update_feeds_async (env0\<lparr>now_ts := - 1\<rparr>) net0 f_id None [] True store0
       = \<lparr>db = store0, total = 0, checked = 0, updated = 0, errors = 0, reads = 0, txn_log = []\<rparr>"
proof -
  have a: "select_feeds env0 [99] False store0 = []"
    by (simp add: select_feeds_def store0_def feed_a_def feed_b_def)
  have b: "select_feeds (env0\<lparr>now_ts := - 1\<rparr>) [] True store0 = []"
    by (simp add: select_feeds_def store0_def feed_a_def feed_b_def)
  show ?thesis
    using a b empty_sweep [OF a, of net0 f_id "Some 0"] empty_sweep [OF b, of net0 f_id None]
    by simp
qed

text \<open>
  C3, as the code has it. With the signal set from its \<open>k\<close>-th reading on, the fetches of
  the first \<open>k\<close> selected feeds are dispatched and the later feeds are skipped. When the
  signal is observed while fetches are being dispatched, the loop over the results ends at
  its first check: no result is reconciled, not even those of the fetches already
  dispatched, and the sweep only deletes old entries. In the loop over the results, a
  check that finds the signal set ends the loop, so that result and all later ones are
  dropped; a check that finds it clear reconciles the result.
\<close>

theorem cancelled_sweep:
  "fst (dispatch_loop (Some k) fs 0) = take k fs
   \<and> (select_feeds ev ids od d \<noteq> [] \<and> k < length (select_feeds ev ids od d) \<longrightarrow>
        db (update_feeds_async ev net done_at (Some k) ids od d) = delete_old (cutoff_ts ev) d
      \<and> checked (update_feeds_async ev net done_at (Some k) ids od d) = 0
      \<and> updated (update_feeds_async ev net done_at (Some k) ids od d) = 0
      \<and> errors (update_feeds_async ev net done_at (Some k) ids od d) = 0)
   \<and> (is_set c (reads s) \<longrightarrow>
        db (result_loop ev c rs s) = db s \<and> checked (result_loop ev c rs s) = checked s
      \<and> updated (result_loop ev c rs s) = updated s \<and> errors (result_loop ev c rs s) = errors s)
   \<and> (\<not> is_set c (reads s) \<longrightarrow>
        result_loop ev c (res # rs) s
          = result_loop ev c rs (reconcile ev c res (s\<lparr>reads := Suc (reads s)\<rparr>)))"
proof (intro conjI impI)
  show "fst (dispatch_loop (Some k) fs 0) = take k fs"
    using dispatch_loop_take [of k fs 0] by simp
next
  assume a: "select_feeds ev ids od d \<noteq> [] \<and> k < length (select_feeds ev ids od d)"
  let ?fs = "select_feeds ev ids od d"
  have obs: "is_set (Some k) (snd (dispatch_loop (Some k) ?fs 0))"
    using a dispatch_loop_observed [of k 0 ?fs] by simp
  let ?s1 = "\<lparr>db = d, total = length ?fs, checked = 0, updated = 0, errors = 0,
        reads = snd (dispatch_loop (Some k) ?fs 0), txn_log = [BEGIN]\<rparr>"
  let ?rs = "map (fetch_one net) (sort_key done_at (fst (dispatch_loop (Some k) ?fs 0)))"
  have rl: "result_loop ev (Some k) ?rs ?s1 = (if ?rs = [] then ?s1 else ?s1\<lparr>reads := Suc (reads ?s1)\<rparr>)"
    by (rule result_loop_cancelled) (simp add: obs)
  have sw: "update_feeds_async ev net done_at (Some k) ids od d
      = (result_loop ev (Some k) ?rs ?s1)
          \<lparr>db := delete_old (cutoff_ts ev) (db (result_loop ev (Some k) ?rs ?s1)),
           txn_log := [BEGIN, DELETE_OLD, COMMIT]\<rparr>"
    using a by (simp add: sweep_nonempty)
  show "db (update_feeds_async ev net done_at (Some k) ids od d) = delete_old (cutoff_ts ev) d"
    unfolding sw rl by simp
  show "checked (update_feeds_async ev net done_at (Some k) ids od d) = 0"
    unfolding sw rl by simp
  show "updated (update_feeds_async ev net done_at (Some k) ids od d) = 0"
    unfolding sw rl by simp
  show "errors (update_feeds_async ev net done_at (Some k) ids od d) = 0"
    unfolding sw rl by simp
next
  assume "is_set c (reads s)"
  then have rl: "result_loop ev c rs s = (if rs = [] then s else s\<lparr>reads := Suc (reads s)\<rparr>)"
    by (rule result_loop_cancelled)
  show "db (result_loop ev c rs s) = db s" unfolding rl by simp
  show "checked (result_loop ev c rs s) = checked s" unfolding rl by simp
  show "updated (result_loop ev c rs s) = updated s" unfolding rl by simp
  show "errors (result_loop ev c rs s) = errors s" unfolding rl by simp
next
  assume "\<not> is_set c (reads s)"
  then show "result_loop ev c (res # rs) s
          = result_loop ev c rs (reconcile ev c res (s\<lparr>reads := Suc (reads s)\<rparr>))"
    by simp
qed


theorem cancelled_sweep_witness:
  "fst (dispatch_loop (Some 1) [feed_a, feed_b] 0) = [feed_a]
   \<and> select_feeds env0 [] False store0 \<noteq> []
   \<and> 1 < length (select_feeds env0 [] False store0)
   \<and> db (update_feeds_async env0 net0 f_id (Some 1) [] False store0)
       = delete_old (cutoff_ts env0) store0
   \<and> checked (update_feeds_async env0 net0 f_id (Some 1) [] False store0) = 0
   \<and> is_set (Some 2) (reads state0)
   \<and> db (result_loop env0 (Some 2) [(1, Not_modified)] state0) = db state0
   \<and> \<not> is_set (Some 3) (reads state0)
   \<and> result_loop env0 (Some 3) [(1, Not_modified)] state0
       = result_loop env0 (Some 3) []
           (reconcile env0 (Some 3) (1, Not_modified) (state0\<lparr>reads := Suc (reads state0)\<rparr>))"
proof -
  have sel: "select_feeds env0 [] False store0 \<noteq> [] \<and> 1 < length (select_feeds env0 [] False store0)"
    by (simp add: select_feeds_def store0_def)
  have set: "is_set (Some 2) (reads state0)" by (simp add: is_set_def state0_def)
  have unset: "\<not> is_set (Some 3) (reads state0)" by (simp add: is_set_def state0_def)
  show ?thesis
    using sel set unset
      cancelled_sweep [of 1 "[feed_a, feed_b]" env0 "[]" False store0 net0 f_id "Some 2" state0
        "[(1, Not_modified)]" "(1, Not_modified)"]
      cancelled_sweep [of 1 "[feed_a, feed_b]" env0 "[]" False store0 net0 f_id "Some 3" state0
        "[]" "(1, Not_modified)"]
    by simp
qed

text \<open>
  C3 as the specification states it fails: with two feeds and the signal set after the
  first result is reconciled, both fetches are dispatched, one result is reconciled, and
  the row of the second feed is left as it was.
\<close>

theorem dispatched_result_dropped_counterexample:
  "fst (dispatch_loop (Some 3) (select_feeds env0 [] False store0) 0) = [feed_a, feed_b]
   \<and> checked (update_feeds_async env0 net1 f_id (Some 3) [] False store0) = 1
   \<and> fetchone_feed (db (update_feeds_async env0 net1 f_id (Some 3) [] False store0)) 2
       = Some feed_b
   \<and> last_fetch feed_b = None"
  by (simp add: update_feeds_async_def select_feeds_def store0_def Let_def is_set_def
        fetch_one_def net1_def feed_a_def feed_b_def reconcile_def env0_def
        delete_old_def update_feed_def read_month_count_def fetchone_feed_def
        choose_interval_def)

text \<open>
  C2, as the code has it. A \<^verbatim>\<open>start_update_job\<close> call made while the active job is in
  state \<^verbatim>\<open>running\<close> returns that job's id and changes nothing: no job is created
  and no runner thread is started. In every other case (no active job, or an active job
  that is cancelling or finished) it creates a job in state \<^verbatim>\<open>running\<close> under the
  id built from the clock and the process id, makes it the active job, starts one runner
  thread, and leaves the jobs under all other ids as they are.
\<close>

theorem start_while_running:
  "(active_job_id m = Some a \<and> jobs m a = Some j \<and> state j = Running
      \<longrightarrow> start_update_job now pid full_sweep m = (a, m))
   \<and> (\<not> active_running m \<longrightarrow>
        fst (start_update_job now pid full_sweep m) = (now, pid)
      \<and> map_option state (jobs (snd (start_update_job now pid full_sweep m)) (now, pid)) = Some Running
      \<and> active_job_id (snd (start_update_job now pid full_sweep m)) = Some (now, pid)
      \<and> threads (snd (start_update_job now pid full_sweep m))
          = threads m @ [\<lparr>r_job_id = (now, pid), r_cancel_event = length (events m),
                           r_full_sweep = full_sweep\<rparr>]
      \<and> (\<forall>jid. jid \<noteq> (now, pid)
            \<longrightarrow> jobs (snd (start_update_job now pid full_sweep m)) jid = jobs m jid))"
  by (simp add: start_update_job_def active_running_def Let_def)

theorem start_while_running_witness:
  "active_job_id m1 = Some (100, 7) \<and> map_option state (jobs m1 (100, 7)) = Some Running
   \<and> start_update_job 105 7 True m1 = ((100, 7), m1)
   \<and> \<not> active_running manager0
   \<and> fst (start_update_job 100 7 True manager0) = (100, 7)
   \<and> length (threads (snd (start_update_job 100 7 True manager0))) = 1"
proof -
  obtain j where j: "jobs m1 (100, 7) = Some j" "state j = Running"
    using m1_eval by (cases "jobs m1 (100, 7)") auto
  have a: "active_job_id m1 = Some (100, 7)" using m1_eval by simp
  have n: "\<not> active_running manager0" by (simp add: active_running_def manager0_def)
  show ?thesis
    using a j n start_while_running [of m1 "(100, 7)" j 105 7 True]
      start_while_running [of manager0 "(100, 7)" j 100 7 True]
    by (simp add: manager0_def)
qed

text \<open>
  C2 as the specification states it fails: after a start, a cancel of that job and a
  second start, the first job is \<^verbatim>\<open>cancelling\<close>, the second is \<^verbatim>\<open>running\<close>, and
  two runner threads have been started.
\<close>

theorem two_live_jobs_counterexample:
  "fst (cancel_update_job 101 (100, 7) m1) = True
   \<and> map_option state (jobs m3 (100, 7)) = Some Cancelling
   \<and> map_option state (jobs m3 (102, 7)) = Some Running
   \<and> fst (start_update_job 102 7 True m2) = (102, 7)
   \<and> length (threads m3) = 2"
  by (simp add: m3_def m2_def m1_def start_update_job_def cancel_update_job_def
        active_running_def manager0_def Let_def)

text \<open>
  C4 fails in the code. \<^verbatim>\<open>cancel_update_job\<close> never looks at the job's state: on a
  job whose runner has returned and that is \<^verbatim>\<open>done\<close>, it sets the event, moves the
  job to \<^verbatim>\<open>cancelling\<close> and returns \<^verbatim>\<open>True\<close>. (For an unknown id it does return
  \<^verbatim>\<open>False\<close> and changes nothing: lemma \<open>cancel_unknown\<close>.)
\<close>

theorem cancel_finished_job:
  "map_option state (jobs m_done (100, 7)) = Some Done
   \<and> fst (cancel_update_job 130 (100, 7) m_done) = True
   \<and> map_option state (jobs (snd (cancel_update_job 130 (100, 7) m_done)) (100, 7))
       = Some Cancelling"
  by (simp add: m_done_def m1_def start_update_job_def cancel_update_job_def runner_returns_def
        event_is_set_def active_running_def manager0_def Let_def)

end
